theory Spec2Isabelle
  imports Main "HOL-Library.Word" "HOL-Library.Monad_Syntax"
begin

unbundle bit_operations_syntax

section \<open>socfs: registers of a SoC as a FUSE filesystem\<close>

text \<open>
  A shallow embedding of \<^verbatim>\<open>socfs.c\<close>. The descriptor is used by the program in place: it is
  the read-only mapping of the soc file and every lookup chases pointers through it. The
  model keeps it that way: the descriptor is the byte image of the mapping, a pointer into
  it is an offset, and a read that leaves the image is the memory fault \<open>None\<close> of the
  option monad. Bytes are \<open>char\<close>s, so that C strings are HOL strings.
\<close>

subsection \<open>C strings\<close>

text \<open>
  A \<^verbatim>\<open>char *\<close> is modelled by the bytes from the pointer to the end of the object it
  points into. The string functions read up to the terminating NUL; running off the object
  before a NUL is seen is the fault \<open>None\<close>.
\<close>

definition NUL :: char where
  "NUL = CHR 0x00"

text \<open>The bytes a \<^verbatim>\<open>const char *path\<close> handed in by FUSE points to: the text and its NUL.\<close>

definition c_str :: "string \<Rightarrow> string" where
  "c_str s = s @ [NUL]"

text \<open>\<^verbatim>\<open>strlen\<close>.\<close>

fun strlen :: "string \<Rightarrow> nat option" where
  "strlen [] = None"
| "strlen (c # cs) = (if c = NUL then Some 0 else map_option Suc (strlen cs))"

text \<open>The text of the C string at a pointer: what \<^verbatim>\<open>%s\<close> or the directory filler reads.\<close>

fun c_text :: "string \<Rightarrow> string option" where
  "c_text [] = None"
| "c_text (c # cs) = (if c = NUL then Some [] else map_option ((#) c) (c_text cs))"

text \<open>
  \<^verbatim>\<open>strchr\<close> (and its old name \<^verbatim>\<open>index\<close>): the position of the first \<open>c\<close>, or
  \<open>NULL\<close> (the inner \<open>None\<close>) when the terminator comes first.
\<close>

fun strchr :: "string \<Rightarrow> char \<Rightarrow> nat option option" where
  "strchr [] c = None"
| "strchr (x # xs) c =
     (if x = c then Some (Some 0)
      else if x = NUL then Some None
      else map_option (map_option Suc) (strchr xs c))"

text \<open>
  \<^verbatim>\<open>strcmp\<close> and \<^verbatim>\<open>strncmp\<close>: the difference of the first two bytes that differ, 0
  when the strings agree up to the terminator (or, for \<^verbatim>\<open>strncmp\<close>, on the first \<open>n\<close>
  bytes; \<open>n\<close> is a \<^verbatim>\<open>size_t\<close>).
\<close>

fun strcmp :: "string \<Rightarrow> string \<Rightarrow> int option" where
  "strcmp (a # as) (b # bs) =
     (if a \<noteq> b then Some (of_char a - of_char b)
      else if a = NUL then Some 0
      else strcmp as bs)"
| "strcmp _ _ = None"

fun strncmp :: "string \<Rightarrow> string \<Rightarrow> 64 word \<Rightarrow> int option" where
  "strncmp (a # as) (b # bs) n =
     (if n = 0 then Some 0
      else if a \<noteq> b then Some (of_char a - of_char b)
      else if a = NUL then Some 0
      else strncmp as bs (n - 1))"
| "strncmp _ _ n = (if n = 0 then Some 0 else None)"

subsection \<open>The descriptor image\<close>

text \<open>
  The packed structs \<^verbatim>\<open>soc_header\<close>, \<^verbatim>\<open>top\<close> and \<^verbatim>\<open>reg\<close> give every field a fixed
  offset. Integers are read in the byte order of the host, taken to be little-endian.
\<close>

definition MAX_SOC_NAME :: nat where "MAX_SOC_NAME = 32"
definition MAX_REG_NAME :: nat where "MAX_REG_NAME = 64"
definition MAX_TOP_NAME :: nat where "MAX_TOP_NAME = 32"

definition SOC_MAGIC :: "32 word" where
  "SOC_MAGIC = 0x57a32bcd"

text \<open>\<^verbatim>\<open>struct soc_header\<close>: magic, version, soc\_name[32], top\_count, tops[].\<close>

definition hdr_magic :: nat where "hdr_magic = 0"
definition hdr_version :: nat where "hdr_version = 4"
definition hdr_soc_name :: nat where "hdr_soc_name = 8"
definition hdr_top_count :: nat where "hdr_top_count = 8 + MAX_SOC_NAME"
definition hdr_tops :: nat where "hdr_tops = 12 + MAX_SOC_NAME"

text \<open>\<^verbatim>\<open>struct top\<close>: name[32], reg\_count, next\_offset, regs[].\<close>

definition top_name :: nat where "top_name = 0"
definition top_reg_count :: nat where "top_reg_count = MAX_TOP_NAME"
definition top_next_offset :: nat where "top_next_offset = MAX_TOP_NAME + 4"
definition top_regs :: nat where "top_regs = MAX_TOP_NAME + 8"

text \<open>\<^verbatim>\<open>struct reg\<close>: name[64], addr, width.\<close>

definition reg_name :: nat where "reg_name = 0"
definition reg_addr :: nat where "reg_addr = MAX_REG_NAME"
definition reg_width :: nat where "reg_width = MAX_REG_NAME + 8"
definition sizeof_reg :: nat where "sizeof_reg = MAX_REG_NAME + 12"

text \<open>The value of little-endian bytes, and a read of \<open>n\<close> bytes at an offset.\<close>

fun le_word :: "string \<Rightarrow> 'a::len word" where
  "le_word [] = 0"
| "le_word (c # cs) = of_char c + 256 * le_word cs"

definition rd_bytes :: "string \<Rightarrow> nat \<Rightarrow> nat \<Rightarrow> string option" where
  "rd_bytes img off n = (if off + n \<le> length img then Some (take n (drop off img)) else None)"

definition rd32 :: "string \<Rightarrow> nat \<Rightarrow> 32 word option" where
  "rd32 img off = map_option le_word (rd_bytes img off 4)"

definition rd64 :: "string \<Rightarrow> nat \<Rightarrow> 64 word option" where
  "rd64 img off = map_option le_word (rd_bytes img off 8)"

text \<open>\<^verbatim>\<open>struct soc_private\<close>: the mapped descriptor and the descriptor of \<^verbatim>\<open>/dev/mem\<close>.\<close>

record soc_private =
  header :: string
  mem_fd :: int

text \<open>A pointer into the descriptor: \<open>NULL\<close>, or the offset from \<^verbatim>\<open>private->header\<close>.\<close>

datatype ptr = NULL | Ptr nat

subsection \<open>Path resolution\<close>

text \<open>
  \<^verbatim>\<open>find_top\<close>. The loop runs \<^verbatim>\<open>top_count\<close> times; \<open>k\<close> counts the iterations left.
  Each one compares at most \<open>len\<close> bytes of \<open>name\<close> with the name field at \<open>tp\<close> and then
  follows \<^verbatim>\<open>next_offset\<close>.
\<close>

fun find_top_loop :: "string \<Rightarrow> string \<Rightarrow> 64 word \<Rightarrow> nat \<Rightarrow> nat \<Rightarrow> ptr option" where
  "find_top_loop img name len tp 0 = Some NULL"
| "find_top_loop img name len tp (Suc k) =
     do {
       c \<leftarrow> strncmp name (drop (tp + top_name) img) len;
       if c = 0 then Some (Ptr tp)
       else do {
         nxt \<leftarrow> rd32 img (tp + top_next_offset);
         find_top_loop img name len (unat nxt) k
       }
     }"

definition find_top :: "soc_private \<Rightarrow> string \<Rightarrow> 64 word \<Rightarrow> ptr option" where
  "find_top private name len =
     do {
       top_count \<leftarrow> rd32 (header private) hdr_top_count;
       find_top_loop (header private) name len hdr_tops (unat top_count)
     }"

text \<open>
  \<^verbatim>\<open>find_reg\<close>. \<open>name\<close> is the path. \<^verbatim>\<open>idx = index(name + 1, '/') - 1\<close> points at the
  byte before the second slash, so \<^verbatim>\<open>len = idx - (name + 1)\<close> is the position of that
  slash in \<^verbatim>\<open>name + 1\<close> less one, converted to \<^verbatim>\<open>size_t\<close> when it is passed on (\<open>-1\<close>
  wraps to \<open>2 ^ 64 - 1\<close>). The register name starts at \<^verbatim>\<open>idx + 2\<close>. When there is no
  second slash \<^verbatim>\<open>index\<close> returns \<open>NULL\<close> and the pointer arithmetic on it is undefined:
  the model faults.
\<close>

fun find_reg_loop :: "string \<Rightarrow> string \<Rightarrow> nat \<Rightarrow> nat \<Rightarrow> ptr option" where
  "find_reg_loop img rname r 0 = Some NULL"
| "find_reg_loop img rname r (Suc k) =
     do {
       c \<leftarrow> strcmp rname (drop (r + reg_name) img);
       if c = 0 then Some (Ptr r)
       else find_reg_loop img rname (r + sizeof_reg) k
     }"

definition find_reg :: "soc_private \<Rightarrow> string \<Rightarrow> ptr option" where
  "find_reg private name =
     do {
       slash \<leftarrow> strchr (drop 1 (c_str name)) CHR ''/'';
       case slash of
         None \<Rightarrow> None
       | Some p \<Rightarrow>
           do {
             let len = (of_nat p - 1 :: 64 word);
             tp \<leftarrow> find_top private (drop 1 (c_str name)) len;
             case tp of
               NULL \<Rightarrow> Some NULL
             | Ptr t \<Rightarrow>
                 do {
                   reg_count \<leftarrow> rd32 (header private) (t + top_reg_count);
                   find_reg_loop (header private) (drop (p + 2) (c_str name))
                     (t + top_regs) (unat reg_count)
                 }
           }
     }"

subsection \<open>The machine: page size, \<^verbatim>\<open>/dev/mem\<close> and the address space\<close>

text \<open>
  What the callbacks reach without it being passed in: the private data behind
  \<^verbatim>\<open>fuse_get_context()\<close>, the page size, the kernel's answer to a \<^verbatim>\<open>mmap\<close> of
  \<^verbatim>\<open>/dev/mem\<close> with a given length and file offset (the base address, or \<open>None\<close> for
  \<^verbatim>\<open>MAP_FAILED\<close>), the physical memory behind \<^verbatim>\<open>/dev/mem\<close> as plain storage, the live
  mappings (base, length, file offset) and the system calls made so far.
\<close>

datatype syscall = Mmap "32 word" "64 word" | Munmap "64 word" "32 word"

record world =
  private_data :: soc_private
  pagesize :: "32 word"
  mmap_ret :: "32 word \<Rightarrow> 64 word \<Rightarrow> 64 word option"
  devmem :: "64 word \<Rightarrow> 8 word"
  mappings :: "(64 word \<times> 32 word \<times> 64 word) list"
  trace :: "syscall list"

text \<open>\<^verbatim>\<open>struct mem_map\<close>.\<close>

record mem_map =
  virt_addr :: "64 word"
  map_base :: "64 word"
  offset_in_page :: "32 word"
  mapped_size :: "32 word"

definition sys_mmap :: "world \<Rightarrow> 32 word \<Rightarrow> 64 word \<Rightarrow> 64 word option \<times> world" where
  "sys_mmap w len off =
     (case mmap_ret w len off of
        None \<Rightarrow> (None, w\<lparr>trace := trace w @ [Mmap len off]\<rparr>)
      | Some b \<Rightarrow>
          (Some b, w\<lparr>mappings := (b, len, off) # mappings w,
                      trace := trace w @ [Mmap len off]\<rparr>))"

text \<open>\<^verbatim>\<open>munmap\<close> of a window removes the mappings made with that base and length.\<close>

definition sys_munmap :: "world \<Rightarrow> 64 word \<Rightarrow> 32 word \<Rightarrow> world" where
  "sys_munmap w b len =
     w\<lparr>mappings := filter (\<lambda>m. \<not> (fst m = b \<and> fst (snd m) = len)) (mappings w),
       trace := trace w @ [Munmap b len]\<rparr>"

text \<open>
  A load or store of \<open>n\<close> bytes at a virtual address reaches physical memory when the
  bytes lie inside one live mapping. Outside every mapping the access is undefined in C
  (in practice a signal that ends the process): the model faults.
\<close>

fun lookup_map :: "(64 word \<times> 32 word \<times> 64 word) list \<Rightarrow> 64 word \<Rightarrow> nat \<Rightarrow> 64 word option" where
  "lookup_map [] va n = None"
| "lookup_map ((b, sz, off) # ms) va n =
     (if uint b \<le> uint va \<and> uint va + int n \<le> uint b + uint sz
      then Some (off + (va - b))
      else lookup_map ms va n)"

fun load_le :: "(64 word \<Rightarrow> 8 word) \<Rightarrow> 64 word \<Rightarrow> nat \<Rightarrow> 64 word" where
  "load_le m a 0 = 0"
| "load_le m a (Suc n) = ucast (m a) OR push_bit 8 (load_le m (a + 1) n)"

fun store_le :: "(64 word \<Rightarrow> 8 word) \<Rightarrow> 64 word \<Rightarrow> nat \<Rightarrow> 64 word \<Rightarrow> (64 word \<Rightarrow> 8 word)" where
  "store_le m a 0 v = m"
| "store_le m a (Suc n) v = store_le (m(a := ucast v)) (a + 1) n (drop_bit 8 v)"

text \<open>
  \<^verbatim>\<open>*(volatile uintN_t *)va\<close> read into a \<^verbatim>\<open>uint64_t\<close>, and the store of a
  \<^verbatim>\<open>uint64_t\<close> through such a pointer, which keeps the low \<open>n\<close> bytes.
\<close>

definition vload :: "world \<Rightarrow> 64 word \<Rightarrow> nat \<Rightarrow> 64 word option" where
  "vload w va n =
     map_option (\<lambda>pa. load_le (devmem w) pa n) (lookup_map (mappings w) va n)"

definition vstore :: "world \<Rightarrow> 64 word \<Rightarrow> nat \<Rightarrow> 64 word \<Rightarrow> world option" where
  "vstore w va n v =
     map_option (\<lambda>pa. w\<lparr>devmem := store_le (devmem w) pa n v\<rparr>)
       (lookup_map (mappings w) va n)"

subsection \<open>The register access engine\<close>

text \<open>
  \<^verbatim>\<open>map_mem\<close>. \<open>target\<close> is the \<^verbatim>\<open>off_t\<close> the register address was converted to and
  \<open>width\<close> the \<^verbatim>\<open>size_t\<close> argument. The sum \<^verbatim>\<open>offset_in_page + width\<close> is computed in
  \<^verbatim>\<open>size_t\<close>, \<^verbatim>\<open>mapped_size *= 2\<close> in 32 bits. The result is \<open>None\<close> where the C function
  returns 1 and the filled-in \<^verbatim>\<open>struct mem_map\<close> where it returns 0.
\<close>

definition map_mem :: "world \<Rightarrow> 64 word \<Rightarrow> 64 word \<Rightarrow> mem_map option \<times> world" where
  "map_mem w target width =
     (let page_size = pagesize w;
          off = ucast target AND (page_size - 1);
          msize = (if (ucast off :: 64 word) + width > ucast page_size
                   then page_size * 2 else page_size);
          (base, w') = sys_mmap w msize (target AND NOT (ucast (page_size - 1)))
      in case base of
           None \<Rightarrow> (None, w')
         | Some b \<Rightarrow>
             (Some \<lparr>virt_addr = b + ucast off, map_base = b,
                    offset_in_page = off, mapped_size = msize\<rparr>, w'))"

definition unmap_mem :: "world \<Rightarrow> mem_map \<Rightarrow> world" where
  "unmap_mem w m = sys_munmap w (map_base m) (mapped_size m)"

text \<open>\<^verbatim>\<open>%llx\<close>: lowercase hexadecimal without leading zeros.\<close>

definition hex_digit :: "nat \<Rightarrow> char" where
  "hex_digit d = ''0123456789abcdef'' ! d"

function hex_int :: "int \<Rightarrow> string" where
  "hex_int n =
     (if n < 16 then [hex_digit (nat n)]
      else hex_int (n div 16) @ [hex_digit (nat (n mod 16))])"
  by pat_completeness auto
termination
  by (relation "measure nat") auto

definition fmt_llx :: "64 word \<Rightarrow> string" where
  "fmt_llx v = hex_int (uint v)"

definition ENOENT :: int where "ENOENT = 2"
definition EFAULT :: int where "EFAULT = 14"
definition EINVAL :: int where "EINVAL = 22"

text \<open>
  \<^verbatim>\<open>soc_read\<close>. The result is the return value, the text \<^verbatim>\<open>sprintf\<close> put into \<^verbatim>\<open>buf\<close>
  (empty when nothing was written) and the machine afterwards. \<open>sz\<close> and \<open>offset\<close> are
  only logged. The calls of \<^verbatim>\<open>fuse_log\<close> and \<^verbatim>\<open>fprintf\<close> are left out.
  \<open>read_tail\<close> is the code after the \<^verbatim>\<open>switch\<close>, which every \<^verbatim>\<open>case\<close> but the default
  one reaches with the value it loaded.
\<close>

definition read_tail :: "world \<Rightarrow> mem_map \<Rightarrow> 64 word \<Rightarrow> 64 word \<Rightarrow> int \<times> string \<times> world" where
  "read_tail w m addr result =
     (let text = ''0x'' @ fmt_llx addr @ '' -> 0x'' @ fmt_llx result @ [CHR 0x0A]
      in (int (length text), text, unmap_mem w m))"

definition soc_read :: "world \<Rightarrow> string \<Rightarrow> 64 word \<Rightarrow> 64 word \<Rightarrow> (int \<times> string \<times> world) option" where
  "soc_read w path sz offset =
     do {
       reg \<leftarrow> find_reg (private_data w) path;
       case reg of
         NULL \<Rightarrow> Some (- ENOENT, [], w)
       | Ptr r \<Rightarrow>
           do {
             addr \<leftarrow> rd64 (header (private_data w)) (r + reg_addr);
             case map_mem w addr 4 of
               (None, w1) \<Rightarrow> Some (- EFAULT, [], w1)
             | (Some m, w1) \<Rightarrow>
                 do {
                   width \<leftarrow> rd32 (header (private_data w)) (r + reg_width);
                   if width = 8 then map_option (read_tail w1 m addr) (vload w1 (virt_addr m) 1)
                   else if width = 16 then map_option (read_tail w1 m addr) (vload w1 (virt_addr m) 2)
                   else if width = 32 then map_option (read_tail w1 m addr) (vload w1 (virt_addr m) 4)
                   else if width = 64 then map_option (read_tail w1 m addr) (vload w1 (virt_addr m) 8)
                   else Some (- EFAULT, [], w1)
                 }
           }
     }"

text \<open>
  Modelled from the spec: the digits and the numeric token of a write payload, for
  \<^verbatim>\<open>parse_input\<close> below. The token is \<^verbatim>\<open>0x\<close> and the hexadecimal digits after it when
  the text starts with \<^verbatim>\<open>0x\<close>, and the leading decimal digits otherwise.
\<close>

definition is_dec :: "char \<Rightarrow> bool" where
  "is_dec c = (c \<in> set ''0123456789'')"

definition is_hex :: "char \<Rightarrow> bool" where
  "is_hex c = (c \<in> set ''0123456789abcdefABCDEF'')"

definition digit_val :: "char \<Rightarrow> int" where
  "digit_val c =
     (if c \<in> set ''0123456789'' then of_char c - 48
      else if c \<in> set ''abcdef'' then of_char c - 87
      else of_char c - 55)"

definition digits_val :: "int \<Rightarrow> string \<Rightarrow> int" where
  "digits_val base ds = foldl (\<lambda>v c. v * base + digit_val c) 0 ds"

definition is_hex_form :: "string \<Rightarrow> bool" where
  "is_hex_form text = (take 2 text = ''0x'')"

definition numeric_token :: "string \<Rightarrow> string" where
  "numeric_token text =
     (if is_hex_form text then ''0x'' @ takeWhile is_hex (drop 2 text)
      else takeWhile is_dec text)"

text \<open>
  Modelled from the spec: \<^verbatim>\<open>parse_input\<close>, declared in \<^verbatim>\<open>misc.h\<close>, which is not among
  the sources. The spec: the text is parsed as an unsigned 64-bit integer in a
  \<^verbatim>\<open>0x\<close>-prefixed hexadecimal form or a plain decimal form, bytes after the numeric
  token are ignored, and malformed input is an error (\<open>None\<close>; the C function returns
  nonzero). A token without a digit, or whose value does not fit 64 bits, is malformed.
\<close>

definition parse_input :: "string \<Rightarrow> 64 word option" where
  "parse_input text =
     (let ds = (if is_hex_form text then takeWhile is_hex (drop 2 text) else takeWhile is_dec text);
          v = digits_val (if is_hex_form text then 16 else 10) ds
      in if ds = [] \<or> v \<ge> 2 ^ 64 then None else Some (word_of_int v))"

text \<open>
  \<^verbatim>\<open>soc_write\<close>. \<open>buf\<close> is the data offered and \<open>sz\<close> its length as FUSE passes it;
  \<^verbatim>\<open>return size\<close> converts the \<^verbatim>\<open>size_t\<close> to \<^verbatim>\<open>int\<close>. \<open>write_tail\<close> is the code after
  the \<^verbatim>\<open>switch\<close>.
\<close>

definition write_tail :: "mem_map \<Rightarrow> 64 word \<Rightarrow> world \<Rightarrow> int \<times> world" where
  "write_tail m sz w = (sint (ucast sz :: 32 word), unmap_mem w m)"

definition soc_write :: "world \<Rightarrow> string \<Rightarrow> string \<Rightarrow> 64 word \<Rightarrow> 64 word \<Rightarrow> (int \<times> world) option" where
  "soc_write w path buf sz offset =
     do {
       reg \<leftarrow> find_reg (private_data w) path;
       case reg of
         NULL \<Rightarrow> Some (- ENOENT, w)
       | Ptr r \<Rightarrow>
           (case parse_input buf of
              None \<Rightarrow> Some (- EINVAL, w)
            | Some writeval \<Rightarrow>
                do {
                  addr \<leftarrow> rd64 (header (private_data w)) (r + reg_addr);
                  case map_mem w addr 4 of
                    (None, w1) \<Rightarrow> Some (- EFAULT, w1)
                  | (Some m, w1) \<Rightarrow>
                      do {
                        width \<leftarrow> rd32 (header (private_data w)) (r + reg_width);
                        if width = 8 then map_option (write_tail m sz) (vstore w1 (virt_addr m) 1 writeval)
                        else if width = 16 then map_option (write_tail m sz) (vstore w1 (virt_addr m) 2 writeval)
                        else if width = 32 then map_option (write_tail m sz) (vstore w1 (virt_addr m) 4 writeval)
                        else if width = 64 then map_option (write_tail m sz) (vstore w1 (virt_addr m) 8 writeval)
                        else Some (- EFAULT, w1)
                      }
                })
     }"

subsection \<open>The other callbacks\<close>

text \<open>
  \<^verbatim>\<open>soc_readdir\<close>. The filler appends the C string it is given to the listing. The two
  loops walk the blocks through \<^verbatim>\<open>next_offset\<close> and the registers of a block by index.
\<close>

fun fill_tops :: "string \<Rightarrow> nat \<Rightarrow> nat \<Rightarrow> string list \<Rightarrow> string list option" where
  "fill_tops img tp 0 buf = Some buf"
| "fill_tops img tp (Suc k) buf =
     do {
       n \<leftarrow> c_text (drop (tp + top_name) img);
       nxt \<leftarrow> rd32 img (tp + top_next_offset);
       fill_tops img (unat nxt) k (buf @ [n])
     }"

fun fill_regs :: "string \<Rightarrow> nat \<Rightarrow> nat \<Rightarrow> string list \<Rightarrow> string list option" where
  "fill_regs img r 0 buf = Some buf"
| "fill_regs img r (Suc k) buf =
     do {
       n \<leftarrow> c_text (drop (r + reg_name) img);
       fill_regs img (r + sizeof_reg) k (buf @ [n])
     }"

definition soc_readdir :: "world \<Rightarrow> string \<Rightarrow> string list \<Rightarrow> (int \<times> string list \<times> world) option" where
  "soc_readdir w path buf =
     do {
       c \<leftarrow> strcmp (c_str path) (c_str ''/'');
       if c = 0 then
         do {
           top_count \<leftarrow> rd32 (header (private_data w)) hdr_top_count;
           buf' \<leftarrow> fill_tops (header (private_data w)) hdr_tops (unat top_count)
                     (buf @ [''.'', ''..'']);
           Some (0, buf', w)
         }
       else
         do {
           slash \<leftarrow> strchr (drop 1 (c_str path)) CHR ''/'';
           if slash = None then
             do {
               len \<leftarrow> strlen (drop 1 (c_str path));
               tp \<leftarrow> find_top (private_data w) (drop 1 (c_str path)) (of_nat len);
               case tp of
                 NULL \<Rightarrow> Some (- ENOENT, buf, w)
               | Ptr t \<Rightarrow>
                   do {
                     reg_count \<leftarrow> rd32 (header (private_data w)) (t + top_reg_count);
                     buf' \<leftarrow> fill_regs (header (private_data w)) (t + top_regs) (unat reg_count)
                               (buf @ [''.'', ''..'']);
                     Some (0, buf', w)
                   }
             }
           else Some (- ENOENT, buf, w)
         }
     }"

text \<open>\<^verbatim>\<open>soc_getattr\<close>, with the three fields of \<^verbatim>\<open>struct stat\<close> it sets after the \<^verbatim>\<open>memset\<close>.\<close>

record stat =
  st_mode :: "32 word"
  st_nlink :: nat
  st_size :: int

definition S_IFDIR :: "32 word" where "S_IFDIR = 0x4000"
definition S_IFREG :: "32 word" where "S_IFREG = 0x8000"

definition soc_getattr :: "world \<Rightarrow> string \<Rightarrow> (int \<times> stat \<times> world) option" where
  "soc_getattr w path =
     do {
       c \<leftarrow> strcmp (c_str path) (c_str ''/'');
       is_dir \<leftarrow> (if c = 0 then Some True
                  else map_option (\<lambda>s. s = None) (strchr (drop 1 (c_str path)) CHR ''/''));
       Some (0,
             if is_dir then \<lparr>st_mode = S_IFDIR OR 0x1ED, st_nlink = 2, st_size = 0\<rparr>
             else \<lparr>st_mode = S_IFREG OR 0x1B6, st_nlink = 1, st_size = 256\<rparr>,
             w)
     }"

definition soc_truncate :: "world \<Rightarrow> string \<Rightarrow> 64 word \<Rightarrow> (int \<times> world) option" where
  "soc_truncate w path offset = Some (0, w)"

subsection \<open>Start-up\<close>

text \<open>
  The part of \<^verbatim>\<open>main\<close> between the mapping of the soc file and \<^verbatim>\<open>fuse_main\<close>: the one
  check made on the descriptor. \<open>img\<close> is the mapping, \<open>fd\<close> the descriptor of
  \<^verbatim>\<open>/dev/mem\<close>. \<^verbatim>\<open>exit(1)\<close> is \<open>Exit 1\<close>; otherwise the private data is handed to
  \<^verbatim>\<open>fuse_main\<close>.
\<close>

datatype startup = Exit int | Serve soc_private

definition main_load :: "string \<Rightarrow> int \<Rightarrow> startup option" where
  "main_load img fd =
     do {
       magic \<leftarrow> rd32 img hdr_magic;
       if magic \<noteq> SOC_MAGIC then Some (Exit 1)
       else do {
         version \<leftarrow> rd32 img hdr_version;
         if version \<noteq> 1 then Some (Exit 1)
         else Some (Serve \<lparr>header = img, mem_fd = fd\<rparr>)
       }
     }"

subsection \<open>Descriptor images for the examples\<close>

text \<open>
  A writer of descriptor images, the inverse of the field reads above: names are cut or
  NUL-padded to their field, integers are little-endian, the registers of a block follow
  its header and \<^verbatim>\<open>next_offset\<close> is the offset of the byte after them.
\<close>

definition name_field :: "nat \<Rightarrow> string \<Rightarrow> string" where
  "name_field n s = take n (s @ replicate n NUL)"

fun le_bytes :: "nat \<Rightarrow> int \<Rightarrow> string" where
  "le_bytes 0 v = []"
| "le_bytes (Suc n) v = char_of (v mod 256) # le_bytes n (v div 256)"

definition enc_reg :: "string \<times> int \<times> int \<Rightarrow> string" where
  "enc_reg r = (case r of (n, a, wd) \<Rightarrow> name_field MAX_REG_NAME n @ le_bytes 8 a @ le_bytes 4 wd)"

definition top_size :: "string \<times> (string \<times> int \<times> int) list \<Rightarrow> nat" where
  "top_size t = top_regs + sizeof_reg * length (snd t)"

definition enc_top :: "nat \<Rightarrow> string \<times> (string \<times> int \<times> int) list \<Rightarrow> string" where
  "enc_top off t =
     name_field MAX_TOP_NAME (fst t) @ le_bytes 4 (int (length (snd t))) @
     le_bytes 4 (int (off + top_size t)) @ concat (map enc_reg (snd t))"

fun enc_tops :: "nat \<Rightarrow> (string \<times> (string \<times> int \<times> int) list) list \<Rightarrow> string" where
  "enc_tops off [] = []"
| "enc_tops off (t # ts) = enc_top off t @ enc_tops (off + top_size t) ts"

definition soc_image :: "string \<Rightarrow> (string \<times> (string \<times> int \<times> int) list) list \<Rightarrow> string" where
  "soc_image chip tops =
     le_bytes 4 (uint SOC_MAGIC) @ le_bytes 4 1 @ name_field MAX_SOC_NAME chip @
     le_bytes 4 (int (length tops)) @ enc_tops hdr_tops tops"

text \<open>
  A machine with 4 KiB pages whose \<^verbatim>\<open>mmap\<close> always succeeds at one base address, with
  zeroed physical memory and nothing mapped.
\<close>

definition machine :: "string \<Rightarrow> world" where
  "machine img =
     \<lparr>private_data = \<lparr>header = img, mem_fd = 3\<rparr>, pagesize = 0x1000,
      mmap_ret = (\<lambda>len off. Some 0x7f0000000000), devmem = (\<lambda>a. 0),
      mappings = [], trace = []\<rparr>"

text \<open>
  The chip \<open>demo\<close> with one block \<open>uart0\<close>: a 32-bit register \<open>CTRL\<close>, a 64-bit register
  \<open>DATA\<close> six bytes below a page boundary, an 8-bit register \<open>STAT\<close> three bytes below one
  and a register \<open>ODD\<close> whose width field holds 12.
\<close>

definition demo_image :: string where
  "demo_image =
     soc_image ''demo''
       [(''uart0'', [(''CTRL'', 0x10000000, 32), (''DATA'', 0x10000FFA, 64),
                     (''STAT'', 0x10000FFD, 8), (''ODD'', 0x10002000, 12)])]"

text \<open>Two blocks whose names differ in their last byte only.\<close>

definition twin_image :: string where
  "twin_image =
     soc_image ''demo''
       [(''uart0'', [(''CTRL'', 0x10000000, 32)]), (''uart1'', [(''DATA'', 0x10001000, 32)])]"

text \<open>A block named like the directory's own entry.\<close>

definition dot_image :: string where
  "dot_image = soc_image ''demo'' [(''.'', [])]"

text \<open>
  A chip name and a block name that fill their 32-byte fields, so that neither field holds
  a NUL; the block has one register.
\<close>

definition unterminated_image :: string where
  "unterminated_image =
     soc_image (replicate 40 CHR ''A'') [(replicate 40 CHR ''B'', [(''CTRL'', 0x10000000, 32)])]"

subsection \<open>The blocks in on-disk order\<close>

text \<open>
  The \<open>i\<close>-th block record reached from \<open>tp\<close> by following \<^verbatim>\<open>next_offset\<close>, and the name
  of the \<open>i\<close>-th block of a descriptor: what the listing is compared with.
\<close>

fun nth_top_from :: "string \<Rightarrow> nat \<Rightarrow> nat \<Rightarrow> nat option" where
  "nth_top_from img tp 0 = Some tp"
| "nth_top_from img tp (Suc i) =
     do {
       nxt \<leftarrow> rd32 img (tp + top_next_offset);
       nth_top_from img (unat nxt) i
     }"

definition block_name :: "string \<Rightarrow> nat \<Rightarrow> string option" where
  "block_name img i =
     do {
       tp \<leftarrow> nth_top_from img hdr_tops i;
       c_text (drop (tp + top_name) img)
     }"

text \<open>
  The block records of a descriptor can be read: the block count lies in the image, and
  for each of the blocks it announces, the record is reached through the offsets before
  it, its name ends in a NUL within the image and its \<^verbatim>\<open>next_offset\<close> lies in the image.
\<close>

definition blocks_readable :: "string \<Rightarrow> bool" where
  "blocks_readable img =
     (case rd32 img hdr_top_count of
        None \<Rightarrow> False
      | Some n \<Rightarrow>
          (\<forall>i \<in> set [0..<unat n].
             case nth_top_from img hdr_tops i of
               None \<Rightarrow> False
             | Some t \<Rightarrow> c_text (drop (t + top_name) img) \<noteq> None \<and>
                         rd32 img (t + top_next_offset) \<noteq> None))"

section \<open>Properties\<close>

lemmas layout_defs =
  MAX_SOC_NAME_def MAX_REG_NAME_def MAX_TOP_NAME_def
  hdr_magic_def hdr_version_def hdr_soc_name_def hdr_top_count_def hdr_tops_def
  top_name_def top_reg_count_def top_next_offset_def top_regs_def
  reg_name_def reg_addr_def reg_width_def sizeof_reg_def

declare hex_int.simps [simp del]

subsection \<open>Loads and stores\<close>

text \<open>
  Bytes stored little-endian are loaded back as the low \<open>8 * n\<close> bits of the value, and an
  access of \<open>n\<close> bytes at an offset into the newest mapping reaches the physical address
  at that offset when it ends inside the mapping.
\<close>

lemma store_le_other:
  "(\<And>i. i < n \<Longrightarrow> x \<noteq> a + of_nat i) \<Longrightarrow> store_le m a n v x = m x"
proof (induction n arbitrary: m a v)
  case 0
  then show ?case by simp
next
  case (Suc n)
  have "x \<noteq> a" using Suc.prems [of 0] by simp
  moreover have "\<And>i. i < n \<Longrightarrow> x \<noteq> a + 1 + of_nat i"
    using Suc.prems [of "Suc _"] by (simp add: add.assoc)
  then have "store_le (m(a := ucast v)) (a + 1) n (drop_bit 8 v) x = (m(a := ucast v)) x"
    by (rule Suc.IH)
  ultimately show ?case
    by simp
qed

lemma of_nat_Suc_neq_0:
  assumes "i < n" "n < 2 ^ 64"
  shows "(1 + of_nat i :: 64 word) \<noteq> 0"
proof
  assume "(1 + of_nat i :: 64 word) = 0"
  then have "(of_nat (Suc i) :: 64 word) = 0"
    by simp
  then have "2 ^ 64 dvd Suc i"
    by (simp only: word_of_nat_eq_0_iff) simp
  then have "2 ^ 64 \<le> Suc i"
    by (rule dvd_imp_le) simp
  with assms show False
    by simp
qed

lemma byte_assemble:
  "(ucast (ucast v :: 8 word) :: 64 word) OR push_bit 8 (take_bit (8 * n) (drop_bit 8 v)) =
     take_bit (8 * Suc n) v"
  by (rule bit_word_eqI) (auto simp: bit_simps)

lemma load_store_le:
  "n < 2 ^ 64 \<Longrightarrow> load_le (store_le m a n v) a n = take_bit (8 * n) v"
proof (induction n arbitrary: m a v)
  case 0
  then show ?case by simp
next
  case (Suc n)
  let ?m = "store_le (m(a := ucast v)) (a + 1) n (drop_bit 8 v)"
  have "\<And>i. i < n \<Longrightarrow> a \<noteq> a + 1 + of_nat i"
    using of_nat_Suc_neq_0 Suc.prems by (simp add: add.assoc)
  then have "?m a = (m(a := ucast v)) a"
    by (rule store_le_other)
  moreover have "load_le ?m (a + 1) n = take_bit (8 * n) (drop_bit 8 v)"
    using Suc.prems by (intro Suc.IH) simp
  ultimately show ?case
    using byte_assemble [of v n] by simp
qed

lemma window_access:
  fixes b :: "64 word" and off msize :: "32 word"
  assumes "0 < n" and "uint off + int n \<le> uint msize" and "uint b + uint msize \<le> 2 ^ 64"
  shows "lookup_map ((b, msize, pa) # ms) (b + ucast off) n = Some (pa + ucast off)"
proof -
  have u: "uint (ucast off :: 64 word) = uint off"
    by (simp add: uint_up_ucast is_up)
  have "uint b + uint (ucast off :: 64 word) < 2 ^ 64"
    using assms u by simp
  then have "uint (b + ucast off) = uint b + uint off"
    using u by (simp add: uint_add_lem [THEN iffD1])
  with assms show ?thesis
    by simp
qed

subsection \<open>The mapped window\<close>

text \<open>
  What a successful \<^verbatim>\<open>map_mem\<close> has computed. With the width 4 that both callers
  pass, an access of up to four bytes ends inside the mapped window (for a page size
  between 4 and \<open>2 ^ 31\<close>).
\<close>

lemma map_mem_SomeD:
  assumes "map_mem w t wd = (Some m, w1)"
  shows "mmap_ret w (mapped_size m) (t AND NOT (ucast (pagesize w - 1))) = Some (map_base m)"
    and "virt_addr m = map_base m + ucast (offset_in_page m)"
    and "offset_in_page m = ucast t AND (pagesize w - 1)"
    and "mapped_size m =
           (if (ucast (offset_in_page m) :: 64 word) + wd > ucast (pagesize w)
            then pagesize w * 2 else pagesize w)"
    and "w1 = w\<lparr>mappings := (map_base m, mapped_size m, t AND NOT (ucast (pagesize w - 1)))
                              # mappings w,
                 trace := trace w @ [Mmap (mapped_size m) (t AND NOT (ucast (pagesize w - 1)))]\<rparr>"
  using assms
  by (auto simp: map_mem_def Let_def sys_mmap_def split: option.splits if_splits)

lemma map_mem_SomeI:
  assumes "mmap_ret w (mapped_size m) (t AND NOT (ucast (pagesize w - 1))) = Some (map_base m)"
    and "virt_addr m = map_base m + ucast (offset_in_page m)"
    and "offset_in_page m = ucast t AND (pagesize w - 1)"
    and "mapped_size m =
           (if (ucast (offset_in_page m) :: 64 word) + wd > ucast (pagesize w)
            then pagesize w * 2 else pagesize w)"
  shows "map_mem w t wd =
           (Some m, w\<lparr>mappings := (map_base m, mapped_size m, t AND NOT (ucast (pagesize w - 1)))
                              # mappings w,
                 trace := trace w @ [Mmap (mapped_size m) (t AND NOT (ucast (pagesize w - 1)))]\<rparr>)"
  using assms
  by (cases m) (auto simp: map_mem_def Let_def sys_mmap_def split: option.splits if_splits)

lemma map_mem_window_up_to_4:
  assumes mm: "map_mem w t 4 = (Some m, w1)"
    and ps: "4 \<le> uint (pagesize w)" "uint (pagesize w) < 2 ^ 31"
    and n: "n \<le> 4"
  shows "uint (offset_in_page m) + int n \<le> uint (mapped_size m)"
proof -
  note d = map_mem_SomeD [OF mm]
  let ?ps = "pagesize w"
  let ?off = "offset_in_page m"
  have "?off \<le> ?ps - 1"
    unfolding d(3) by (rule word_and_le1)
  then have "uint ?off \<le> uint (?ps - 1)"
    by (simp add: word_le_def)
  moreover have "uint (?ps - 1) = uint ?ps - 1"
    using ps(1) by (simp add: uint_sub_if')
  ultimately have off: "uint ?off < uint ?ps"
    by simp
  have "uint (ucast ?off :: 64 word) = uint ?off" "uint (ucast ?ps :: 64 word) = uint ?ps"
    by (simp_all add: uint_up_ucast is_up)
  moreover from this have "uint ((ucast ?off :: 64 word) + 4) = uint ?off + 4"
    using off ps(2) by (simp add: uint_word_ariths)
  ultimately have cond: "(ucast ?off :: 64 word) + 4 > ucast ?ps \<longleftrightarrow> uint ?off + 4 > uint ?ps"
    by (simp add: word_less_def)
  have dbl: "uint (?ps * 2) = 2 * uint ?ps"
    using ps(2) by (simp add: uint_word_ariths)
  show ?thesis
  proof (cases "uint ?off + 4 > uint ?ps")
    case True
    then have "uint (mapped_size m) = 2 * uint ?ps"
      using d(4) cond dbl by simp
    with off ps(1) n show ?thesis by simp
  next
    case False
    then have "uint (mapped_size m) = uint ?ps"
      using d(4) cond by simp
    with False n show ?thesis by simp
  qed
qed

text \<open>
  Claim C1: the mapping for a register access has two pages exactly when the offset in the
  page plus the byte width of the register exceeds the page size, so that the access stays
  inside the mapped window. Both callers pass the width 4 to \<^verbatim>\<open>map_mem\<close> whatever the
  register's width. For the 64-bit register \<open>DATA\<close> at page offset \<open>0xFFA\<close> one page is
  mapped although \<open>0xFFA + 8\<close> is beyond it: a load of 4 bytes at the mapped address is
  inside the window, the load of 8 bytes is not, and the read faults; for the 8-bit register \<open>STAT\<close> at page offset \<open>0xFFD\<close> two pages are mapped
  although \<open>0xFFD + 1\<close> is within the first.
\<close>

theorem map_mem_window_ignores_register_width:
  "find_reg (private_data (machine demo_image)) ''/uart0/DATA'' = Some (Ptr 160)
   \<and> rd64 demo_image (160 + reg_addr) = Some 0x10000FFA
   \<and> rd32 demo_image (160 + reg_width) = Some 64
   \<and> fst (map_mem (machine demo_image) 0x10000FFA 4) =
       Some \<lparr>virt_addr = 0x7f0000000FFA, map_base = 0x7f0000000000,
             offset_in_page = 0xFFA, mapped_size = 0x1000\<rparr>
   \<and> (case map_mem (machine demo_image) 0x10000FFA 4 of
         (None, w1) \<Rightarrow> None
       | (Some m, w1) \<Rightarrow> Some (vload w1 (virt_addr m) 4, vload w1 (virt_addr m) 8)) =
       Some (Some 0, None)
   \<and> soc_read (machine demo_image) ''/uart0/DATA'' 4096 0 = None
   \<and> rd64 demo_image (236 + reg_addr) = Some 0x10000FFD
   \<and> rd32 demo_image (236 + reg_width) = Some 8
   \<and> map_option mapped_size (fst (map_mem (machine demo_image) 0x10000FFD 4)) = Some 0x2000"
  by code_simp

subsection \<open>What a callback leaves alone\<close>

lemma map_mem_frame:
  "private_data (snd (map_mem w t wd)) = private_data w"
  "devmem (snd (map_mem w t wd)) = devmem w"
  "\<exists>len off. trace (snd (map_mem w t wd)) = trace w @ [Mmap len off]"
  by (auto simp: map_mem_def Let_def sys_mmap_def split: option.split prod.split)

lemma map_mem_frameD:
  assumes "map_mem w t wd = (m, w1)"
  shows "private_data w1 = private_data w" and "devmem w1 = devmem w"
    and "\<exists>len off. trace w1 = trace w @ [Mmap len off]"
  using map_mem_frame [of w t wd] assms by simp_all

lemma unmap_mem_frame:
  "private_data (unmap_mem w m) = private_data w"
  "devmem (unmap_mem w m) = devmem w"
  by (simp_all add: unmap_mem_def sys_munmap_def)

lemma vstore_frame:
  "vstore w va n v = Some w' \<Longrightarrow> private_data w' = private_data w"
  by (auto simp: vstore_def)

subsection \<open>Registers of unsupported width\<close>

text \<open>
  Claim C2: for a register whose width is outside 8, 16, 32 and 64, read and write fail
  with InvalidWidth and no memory mapping is attempted during the failing call. The width
  is examined by the \<^verbatim>\<open>switch\<close>, after \<^verbatim>\<open>map_mem\<close>, and the default branch returns
  without the \<^verbatim>\<open>unmap_mem\<close> that every other branch reaches. Reading or writing the
  register \<open>ODD\<close> (width 12) returns \<^verbatim>\<open>-EFAULT\<close> after one \<^verbatim>\<open>mmap\<close> and no
  \<^verbatim>\<open>munmap\<close>: the mapping stays live, and a second failing read leaves a second one. The
  read of the 32-bit register \<open>CTRL\<close> unmaps what it mapped.
\<close>

theorem invalid_width_maps_and_returns_before_unmap:
  "rd32 demo_image (312 + reg_width) = Some 12
   \<and> find_reg (private_data (machine demo_image)) ''/uart0/ODD'' = Some (Ptr 312)
   \<and> map_option (\<lambda>(rc, text, w). (rc, text, trace w, mappings w))
        (soc_read (machine demo_image) ''/uart0/ODD'' 4096 0) =
       Some (- EFAULT, [], [Mmap 0x1000 0x10002000],
             [(0x7f0000000000, 0x1000, 0x10002000)])
   \<and> map_option (\<lambda>(rc, w). (rc, trace w, mappings w))
        (soc_write (machine demo_image) ''/uart0/ODD'' ''1'' 1 0) =
       Some (- EFAULT, [Mmap 0x1000 0x10002000],
             [(0x7f0000000000, 0x1000, 0x10002000)])
   \<and> (case soc_read (machine demo_image) ''/uart0/ODD'' 4096 0 of
         None \<Rightarrow> None
       | Some (rc, text, w) \<Rightarrow>
           map_option (\<lambda>(rc', text', w'). (rc', length (mappings w')))
             (soc_read w ''/uart0/ODD'' 4096 0)) =
       Some (- EFAULT, 2)
   \<and> map_option (\<lambda>(rc, text, w). (rc, trace w, mappings w))
        (soc_read (machine demo_image) ''/uart0/CTRL'' 4096 0) =
       Some (18, [Mmap 0x1000 0x10000000, Munmap 0x7f0000000000 0x1000], [])"
  by code_simp

subsection \<open>Read after write\<close>

text \<open>
  Where the access ends inside the mapped window (and the window does not wrap around the
  address space), a write followed by a read reports the low bits of the value written:
  the write stores them, unmaps, and the read maps the same window again.
\<close>

lemma write_then_read_in_window:
  assumes reg: "find_reg (private_data w) path = Some (Ptr r)"
    and addr: "rd64 (header (private_data w)) (r + reg_addr) = Some addr"
    and width: "rd32 (header (private_data w)) (r + reg_width) = Some width"
    and wn: "(width, n) \<in> {(8, 1), (16, 2), (32, 4), (64, 8)}"
    and parse: "parse_input buf = Some v"
    and mm: "map_mem w addr 4 = (Some m, w1)"
    and inside: "uint (offset_in_page m) + int n \<le> uint (mapped_size m)"
    and nowrap: "uint (map_base m) + uint (mapped_size m) \<le> 2 ^ 64"
  shows "\<exists>w2 w3.
           soc_write w path buf sz offset = Some (sint (ucast sz :: 32 word), w2)
           \<and> soc_read w2 path sz' offset' =
               Some (int (length (''0x'' @ fmt_llx addr @ '' -> 0x'' @
                                   fmt_llx (take_bit (8 * n) v) @ ''\<newline>'')),
                     ''0x'' @ fmt_llx addr @ '' -> 0x'' @ fmt_llx (take_bit (8 * n) v) @ ''\<newline>'',
                     w3)"
proof -
  let ?pa = "addr AND NOT (ucast (pagesize w - 1))"
  let ?phys = "?pa + ucast (offset_in_page m)"
  let ?entry = "(map_base m, mapped_size m, ?pa)"
  note d = map_mem_SomeD [OF mm]
  have n: "0 < n" "n < 2 ^ 64"
    using wn by auto
  have look: "\<And>ms. lookup_map (?entry # ms) (virt_addr m) n = Some ?phys"
    unfolding d(2) using n(1) inside nowrap by (rule window_access)
  have w1: "mappings w1 = ?entry # mappings w" "devmem w1 = devmem w"
    "private_data w1 = private_data w" "pagesize w1 = pagesize w" "mmap_ret w1 = mmap_ret w"
    by (subst d(5), simp)+
  define w1' where "w1' = w1\<lparr>devmem := store_le (devmem w1) ?phys n v\<rparr>"
  have st: "vstore w1 (virt_addr m) n v = Some w1'"
    unfolding vstore_def w1'_def by (simp add: w1(1) look del: lookup_map.simps)
  define w2 where "w2 = unmap_mem w1' m"
  have wr: "soc_write w path buf sz offset = Some (sint (ucast sz :: 32 word), w2)"
    using reg addr width wn parse mm st
    by (auto simp: soc_write_def write_tail_def w2_def)
  have frame: "private_data w2 = private_data w" "pagesize w2 = pagesize w"
    "mmap_ret w2 = mmap_ret w" "devmem w2 = store_le (devmem w) ?phys n v"
    unfolding w2_def w1'_def unmap_mem_def sys_munmap_def by (simp_all add: w1)
  have mm2: "map_mem w2 addr 4 =
           (Some m, w2\<lparr>mappings := ?entry # mappings w2,
                 trace := trace w2 @ [Mmap (mapped_size m) ?pa]\<rparr>)"
    using d(1-4) frame(2,3) map_mem_SomeI [of w2 m addr 4] by simp
  define w2' where "w2' = w2\<lparr>mappings := ?entry # mappings w2,
                 trace := trace w2 @ [Mmap (mapped_size m) ?pa]\<rparr>"
  have ld: "vload w2' (virt_addr m) n = Some (take_bit (8 * n) v)"
    unfolding vload_def w2'_def using n(2) by (simp add: look frame(4) load_store_le del: lookup_map.simps)
  have "soc_read w2 path sz' offset' =
          Some (read_tail w2' m addr (take_bit (8 * n) v))"
    using reg addr width wn mm2 ld frame(1)
    by (auto simp: soc_read_def w2'_def)
  then show ?thesis
    using wr by (simp add: read_tail_def Let_def)
qed

text \<open>
  Claim C3: a write of \<open>v\<close> to a register of supported width followed by a read reports
  \<open>v\<close> cut to the width. For the 32-bit register \<open>CTRL\<close> it does. For the 64-bit register
  \<open>DATA\<close> at page offset \<open>0xFFA\<close> the one page mapped for a width of 4 ends before the
  value does: the store leaves the window, and so does the load.
\<close>

theorem write_read_u64_leaves_window:
  "soc_write (machine demo_image) ''/uart0/DATA'' ''0x1122334455667788'' 18 0 = None
   \<and> soc_read (machine demo_image) ''/uart0/DATA'' 4096 0 = None
   \<and> (case soc_write (machine demo_image) ''/uart0/CTRL'' ''0x1234abcd56'' 12 0 of
         None \<Rightarrow> None
       | Some (rc, w) \<Rightarrow>
           map_option (\<lambda>(rc', text, w'). (rc, rc', text)) (soc_read w ''/uart0/CTRL'' 4096 0))
       = Some (12, 25, ''0x10000000 -> 0x34abcd56\<newline>'')"
  by code_simp

subsection \<open>Path resolution\<close>

text \<open>
  \<^verbatim>\<open>strncmp\<close> bounded by the length of a common prefix returns 0 whatever follows the
  prefix on either side.
\<close>

lemma strncmp_agrees_on_prefix:
  "length q < 2 ^ 64 \<Longrightarrow> strncmp (q @ xs) (q @ ys) (of_nat (length q)) = Some 0"
proof (induction q)
  case Nil
  then show ?case by (cases xs; cases ys) simp_all
next
  case (Cons a q)
  have "(of_nat (Suc (length q)) :: 64 word) \<noteq> 0"
  proof
    assume "(of_nat (Suc (length q)) :: 64 word) = 0"
    then have "2 ^ 64 dvd Suc (length q)"
      by (simp only: word_of_nat_eq_0_iff) simp
    then have "2 ^ 64 \<le> Suc (length q)"
      by (rule dvd_imp_le) simp
    with Cons.prems show False by simp
  qed
  moreover have "strncmp (q @ xs) (q @ ys) (of_nat (length q)) = Some 0"
    using Cons.prems by (intro Cons.IH) simp
  ultimately show ?case
    by simp
qed

text \<open>
  So \<^verbatim>\<open>find_top\<close> returns the first block of a descriptor whenever its name field starts
  with the query, whatever bytes \<open>ys\<close> follow there.
\<close>

lemma find_top_first_block_prefix:
  assumes "rd32 (header private) hdr_top_count = Some cnt" and "cnt \<noteq> 0"
    and "drop (hdr_tops + top_name) (header private) = q @ ys"
    and "length q < 2 ^ 64"
  shows "find_top private (q @ xs) (of_nat (length q)) = Some (Ptr hdr_tops)"
proof -
  from \<open>cnt \<noteq> 0\<close> obtain k where "unat cnt = Suc k"
    by (metis not0_implies_Suc unat_eq_0)
  with assms strncmp_agrees_on_prefix [of q xs ys] show ?thesis
    by (simp add: find_top_def)
qed

text \<open>
  Paths that resolve as they should in the descriptor with the single block \<open>uart0\<close>: the
  register \<open>CTRL\<close>, a register that is not there, and a path of three segments.
\<close>

lemma find_reg_examples:
  "find_reg (private_data (machine demo_image)) ''/uart0/CTRL'' = Some (Ptr 84)
   \<and> find_reg (private_data (machine demo_image)) ''/uart0/NOPE'' = Some NULL
   \<and> find_reg (private_data (machine demo_image)) ''/uart0/CTRL/x'' = Some NULL"
  by code_simp

text \<open>
  Claim C4: resolving a block is an exact-name scan; a block whose name has the queried
  name as a proper prefix is never returned. \<^verbatim>\<open>find_top\<close> compares with \<^verbatim>\<open>strncmp\<close>
  bounded by the length of the query, which does not look at the rest of the block's
  name: in a descriptor whose only block is \<open>uart0\<close> the query \<open>uart\<close> returns that block,
  and the directory \<^verbatim>\<open>/uart\<close> lists its registers.
\<close>

theorem find_top_returns_block_with_longer_name:
  "rd32 demo_image hdr_top_count = Some 1
   \<and> block_name demo_image 0 = Some ''uart0''
   \<and> strlen (c_str ''uart'') = Some 4
   \<and> find_top (private_data (machine demo_image)) (c_str ''uart'') 4 = Some (Ptr hdr_tops)
   \<and> map_option (\<lambda>(rc, buf, w). (rc, buf)) (soc_readdir (machine demo_image) ''/uart'' []) =
       Some (0, [''.'', ''..'', ''CTRL'', ''DATA'', ''STAT'', ''ODD''])"
  by code_simp

text \<open>
  Claim C5: \<^verbatim>\<open>/b/r\<close> resolves to NotFound when block \<open>b\<close> is absent, to NotFound when
  \<open>r\<close> is absent in \<open>b\<close>, and to the register otherwise. \<^verbatim>\<open>find_reg\<close> passes
  \<^verbatim>\<open>find_top\<close> a length one short of the block segment (\<^verbatim>\<open>idx\<close> is the byte before the
  slash), so the last byte of the segment is not compared. With \<open>uart0\<close> the only block,
  \<^verbatim>\<open>/uart1/CTRL\<close> and \<^verbatim>\<open>/x/CTRL\<close> resolve to \<open>CTRL\<close> of \<open>uart0\<close> and the former is read;
  with blocks \<open>uart0\<close> and \<open>uart1\<close>, \<^verbatim>\<open>/uart1/DATA\<close> is looked up in \<open>uart0\<close> and not found,
  although \<open>uart1\<close> holds \<open>DATA\<close>.
\<close>

theorem find_reg_drops_last_byte_of_block:
  "rd32 demo_image hdr_top_count = Some 1
   \<and> block_name demo_image 0 = Some ''uart0''
   \<and> find_reg (private_data (machine demo_image)) ''/uart1/CTRL'' = Some (Ptr 84)
   \<and> find_reg (private_data (machine demo_image)) ''/x/CTRL'' = Some (Ptr 84)
   \<and> c_text (drop (84 + reg_name) demo_image) = Some ''CTRL''
   \<and> map_option (\<lambda>(rc, text, w). (rc, text))
        (soc_read (machine demo_image) ''/uart1/CTRL'' 4096 0) =
       Some (18, ''0x10000000 -> 0x0\<newline>'')
   \<and> block_name twin_image 1 = Some ''uart1''
   \<and> map_option (\<lambda>(rc, buf, w). (rc, buf)) (soc_readdir (machine twin_image) ''/uart1'' []) =
       Some (0, [''.'', ''..'', ''DATA''])
   \<and> find_reg (private_data (machine twin_image)) ''/uart1/DATA'' = Some NULL"
  by code_simp

subsection \<open>Write payloads\<close>

lemma takeWhile_no_0x:
  assumes "\<not> P CHR ''x''"
  shows "take 2 (takeWhile P xs) \<noteq> ''0x''"
proof
  assume h: "take 2 (takeWhile P xs) = ''0x''"
  have "CHR ''x'' \<in> set (take 2 (takeWhile P xs))"
    by (simp add: h)
  then have "CHR ''x'' \<in> set (takeWhile P xs)"
    by (rule in_set_takeD)
  then have "P CHR ''x''"
    by (rule set_takeWhileD [THEN conjunct2])
  with assms show False by simp
qed

lemma is_hex_form_token: "is_hex_form (numeric_token buf) = is_hex_form buf"
  using takeWhile_no_0x [of is_dec buf]
  by (simp add: numeric_token_def is_hex_form_def is_dec_def)

lemma parse_input_token: "parse_input (numeric_token buf) = parse_input buf"
proof (cases "is_hex_form buf")
  case True
  then have "is_hex_form (numeric_token buf)" by (simp add: is_hex_form_token)
  moreover have "drop 2 (numeric_token buf) = takeWhile is_hex (drop 2 buf)"
    using True by (simp add: numeric_token_def)
  ultimately show ?thesis
    using True by (simp add: parse_input_def)
next
  case False
  then have "\<not> is_hex_form (numeric_token buf)" by (simp add: is_hex_form_token)
  moreover have "numeric_token buf = takeWhile is_dec buf"
    using False by (simp add: numeric_token_def)
  ultimately show ?thesis
    using False by (simp add: parse_input_def)
qed

lemma numeric_token_prefix: "\<exists>rest. buf = numeric_token buf @ rest"
proof (cases "is_hex_form buf")
  case True
  then have "buf = ''0x'' @ drop 2 buf"
    unfolding is_hex_form_def by (metis append_take_drop_id)
  then have "buf = numeric_token buf @ dropWhile is_hex (drop 2 buf)"
    using True by (simp add: numeric_token_def)
  then show ?thesis ..
next
  case False
  then have "buf = numeric_token buf @ dropWhile is_dec buf"
    by (simp add: numeric_token_def)
  then show ?thesis ..
qed

text \<open>
  Claim C6: for a register and a text that does not parse as an unsigned 64-bit integer
  (\<^verbatim>\<open>0x\<close>-prefixed hexadecimal or plain decimal), write fails with ParseError
  (\<^verbatim>\<open>-EINVAL\<close>) and maps nothing: the machine is returned as it was. For a text that
  parses, the bytes after the numeric token are ignored: the text is its numeric token
  followed by a rest, and writing the token alone does the same as writing the text.
\<close>

theorem soc_write_parse_error_maps_nothing:
  "(find_reg (private_data w) path = Some (Ptr r) \<and> parse_input buf = None \<longrightarrow>
      soc_write w path buf sz offset = Some (- EINVAL, w))
   \<and> soc_write w path (numeric_token buf) sz offset = soc_write w path buf sz offset
   \<and> (\<exists>rest. buf = numeric_token buf @ rest)"
proof (intro conjI impI)
  assume "find_reg (private_data w) path = Some (Ptr r) \<and> parse_input buf = None"
  then show "soc_write w path buf sz offset = Some (- EINVAL, w)"
    by (simp add: soc_write_def)
next
  show "soc_write w path (numeric_token buf) sz offset = soc_write w path buf sz offset"
    unfolding soc_write_def parse_input_token by (rule refl)
next
  show "\<exists>rest. buf = numeric_token buf @ rest"
    by (rule numeric_token_prefix)
qed

theorem soc_write_parse_error_witness:
  "soc_write (machine demo_image) ''/uart0/CTRL'' ''not_a_number'' 12 0 =
     Some (- EINVAL, machine demo_image)
   \<and> numeric_token ''0x5 then more'' = ''0x5''
   \<and> soc_write (machine demo_image) ''/uart0/CTRL'' ''0x5'' 13 0 =
     soc_write (machine demo_image) ''/uart0/CTRL'' ''0x5 then more'' 13 0"
proof -
  have a: "find_reg (private_data (machine demo_image)) ''/uart0/CTRL'' = Some (Ptr 84)"
    by code_simp
  have b: "parse_input ''not_a_number'' = None"
    by code_simp
  have c: "numeric_token ''0x5 then more'' = ''0x5''"
    by code_simp
  show ?thesis
    using soc_write_parse_error_maps_nothing
            [of "machine demo_image" "''/uart0/CTRL''" 84 "''not_a_number''" 12 0]
          soc_write_parse_error_maps_nothing
            [of "machine demo_image" "''/uart0/CTRL''" 84 "''0x5 then more''" 13 0]
          a b c
    by simp
qed

subsection \<open>What is checked at start-up\<close>

text \<open>
  Claim C9, as stated: at load time every fixed-size name field is copied with a bound and
  checked for its terminator, and a descriptor with a non-terminated or over-length name
  is rejected with FormatError. An image whose chip name and block name fill their fields
  is accepted; both names are later read past the end of their field, up to the first
  zero byte of the integer that follows.
\<close>

theorem main_load_accepts_unterminated_names:
  "main_load unterminated_image 3 = Some (Serve \<lparr>header = unterminated_image, mem_fd = 3\<rparr>)
   \<and> take MAX_SOC_NAME (drop hdr_soc_name unterminated_image) = replicate 32 CHR ''A''
   \<and> c_text (drop hdr_soc_name unterminated_image) = Some (replicate 32 CHR ''A'' @ [CHR 0x01])
   \<and> take MAX_TOP_NAME (drop (hdr_tops + top_name) unterminated_image) = replicate 32 CHR ''B''
   \<and> map_option (\<lambda>(rc, buf, w). (rc, buf))
        (soc_readdir (machine unterminated_image) ''/'' []) =
       Some (0, [''.'', ''..'', replicate 32 CHR ''B'' @ [CHR 0x01]])"
  by code_simp

text \<open>
  Claim C9, amended: at load time the magic and the version are the only fields looked
  at. An image is accepted, and handed on as it is, exactly when its first two 32-bit
  words are \<^verbatim>\<open>0x57a32bcd\<close> and 1; the name fields are neither copied nor checked.
\<close>

theorem main_load_checks_magic_and_version_only:
  "main_load img fd = Some (Serve p) \<longleftrightarrow>
     rd32 img hdr_magic = Some SOC_MAGIC \<and> rd32 img hdr_version = Some 1
     \<and> p = \<lparr>header = img, mem_fd = fd\<rparr>"
  by (auto simp: main_load_def split: bind_splits if_splits)

theorem main_load_witness:
  "main_load demo_image 3 = Some (Serve \<lparr>header = demo_image, mem_fd = 3\<rparr>)"
proof -
  have a: "rd32 demo_image hdr_magic = Some SOC_MAGIC"
    by code_simp
  have b: "rd32 demo_image hdr_version = Some 1"
    by code_simp
  show ?thesis
    using main_load_checks_magic_and_version_only
            [of demo_image 3 "\<lparr>header = demo_image, mem_fd = 3\<rparr>"] a b
    by simp
qed

subsection \<open>The descriptor is read-only\<close>

text \<open>
  Claim C10: no filesystem operation changes the descriptor. \<^verbatim>\<open>getattr\<close>, \<^verbatim>\<open>readdir\<close>
  and \<^verbatim>\<open>truncate\<close> leave the whole machine as it was; \<^verbatim>\<open>read\<close> leaves the private data
  (the descriptor image and the descriptor of \<^verbatim>\<open>/dev/mem\<close>) and the physical memory as
  they were; \<^verbatim>\<open>write\<close> leaves the private data as it was, its store going to physical
  memory.
\<close>

theorem callbacks_leave_descriptor_unchanged:
  "(soc_getattr w path = Some (rc1, st, w1) \<longrightarrow> w1 = w)
   \<and> (soc_readdir w path buf = Some (rc2, buf', w2) \<longrightarrow> w2 = w)
   \<and> (soc_truncate w path len = Some (rc3, w3) \<longrightarrow> w3 = w)
   \<and> (soc_read w path sz offset = Some (rc4, out, w4) \<longrightarrow>
        private_data w4 = private_data w \<and> devmem w4 = devmem w)
   \<and> (soc_write w path data sz offset = Some (rc5, w5) \<longrightarrow> private_data w5 = private_data w)"
proof (intro conjI impI)
  assume "soc_getattr w path = Some (rc1, st, w1)"
  then show "w1 = w"
    by (auto simp: soc_getattr_def split: bind_splits)
next
  assume "soc_readdir w path buf = Some (rc2, buf', w2)"
  then show "w2 = w"
    by (auto simp: soc_readdir_def split: bind_splits if_splits ptr.splits)
next
  assume "soc_truncate w path len = Some (rc3, w3)"
  then show "w3 = w"
    by (simp add: soc_truncate_def)
next
  assume h: "soc_read w path sz offset = Some (rc4, out, w4)"
  then show "private_data w4 = private_data w"
    by (auto simp: soc_read_def read_tail_def unmap_mem_frame
             split: bind_splits ptr.splits prod.splits option.splits if_splits
             dest: map_mem_frameD(1))
  from h show "devmem w4 = devmem w"
    by (auto simp: soc_read_def read_tail_def unmap_mem_frame
             split: bind_splits ptr.splits prod.splits option.splits if_splits
             dest: map_mem_frameD(2))
next
  assume h: "soc_write w path data sz offset = Some (rc5, w5)"
  then show "private_data w5 = private_data w"
    by (auto simp: soc_write_def write_tail_def unmap_mem_frame
             split: bind_splits ptr.splits prod.splits option.splits if_splits)
       (metis map_mem_frameD(1) vstore_frame)+
qed

theorem callbacks_witness:
  "map_option (\<lambda>(rc, st, w'). (rc, w' = machine demo_image))
     (soc_getattr (machine demo_image) ''/uart0'') = Some (0, True)
   \<and> map_option (\<lambda>(rc, buf, w'). (rc, w' = machine demo_image))
     (soc_readdir (machine demo_image) ''/'' []) = Some (0, True)
   \<and> map_option (\<lambda>(rc, w'). (rc, w' = machine demo_image))
     (soc_truncate (machine demo_image) ''/uart0/CTRL'' 0) = Some (0, True)
   \<and> map_option (\<lambda>(rc, text, w'). (rc, private_data w' = private_data (machine demo_image)))
     (soc_read (machine demo_image) ''/uart0/CTRL'' 4096 0) = Some (18, True)
   \<and> map_option (\<lambda>(rc, w'). (rc, private_data w' = private_data (machine demo_image)))
     (soc_write (machine demo_image) ''/uart0/CTRL'' ''0x5'' 3 0) = Some (3, True)"
proof -
  note inst = callbacks_leave_descriptor_unchanged
    [where w = "machine demo_image" and offset = 0 and len = 0 and buf = "[]"]
  have "map_option fst (soc_getattr (machine demo_image) ''/uart0'') = Some 0"
    by code_simp
  then obtain st w1 where a: "soc_getattr (machine demo_image) ''/uart0'' = Some (0, st, w1)"
    by (cases "soc_getattr (machine demo_image) ''/uart0''") auto
  have "map_option fst (soc_readdir (machine demo_image) ''/'' []) = Some 0"
    by code_simp
  then obtain buf' w2 where b: "soc_readdir (machine demo_image) ''/'' [] = Some (0, buf', w2)"
    by (cases "soc_readdir (machine demo_image) ''/'' []") auto
  have c: "soc_truncate (machine demo_image) ''/uart0/CTRL'' 0 = Some (0, machine demo_image)"
    by (simp add: soc_truncate_def)
  have "map_option fst (soc_read (machine demo_image) ''/uart0/CTRL'' 4096 0) = Some 18"
    by code_simp
  then obtain out w4 where
    d: "soc_read (machine demo_image) ''/uart0/CTRL'' 4096 0 = Some (18, out, w4)"
    by (cases "soc_read (machine demo_image) ''/uart0/CTRL'' 4096 0") auto
  have "map_option fst (soc_write (machine demo_image) ''/uart0/CTRL'' ''0x5'' 3 0) = Some 3"
    by code_simp
  then obtain w5 where
    e: "soc_write (machine demo_image) ''/uart0/CTRL'' ''0x5'' 3 0 = Some (3, w5)"
    by (cases "soc_write (machine demo_image) ''/uart0/CTRL'' ''0x5'' 3 0") auto
  from inst [where path = "''/uart0''" and ?rc1.0 = 0 and st = st and ?w1.0 = w1] a
  have a': "w1 = machine demo_image" by blast
  from inst [where path = "''/''" and ?rc2.0 = 0 and buf' = buf' and ?w2.0 = w2] b
  have b': "w2 = machine demo_image" by blast
  from inst [where path = "''/uart0/CTRL''" and sz = 4096 and ?rc4.0 = 18 and out = out
              and ?w4.0 = w4] d
  have d': "private_data w4 = private_data (machine demo_image)"
    by blast
  from inst [where path = "''/uart0/CTRL''" and sz = 3 and ?rc5.0 = 3 and ?w5.0 = w5
              and data = "''0x5''"] e
  have e': "private_data w5 = private_data (machine demo_image)"
    by blast
  show ?thesis
    using a a' b b' c d d' e e' by simp
qed

subsection \<open>The root listing\<close>

lemma fill_tops_Some:
  "fill_tops img tp k buf = Some buf' \<Longrightarrow>
     \<exists>names. buf' = buf @ names \<and> length names = k \<and>
       (\<forall>i<k. \<exists>t. nth_top_from img tp i = Some t \<and>
                 c_text (drop (t + top_name) img) = Some (names ! i))"
proof (induction k arbitrary: tp buf buf')
  case 0
  then show ?case by simp
next
  case (Suc k)
  from Suc.prems obtain n nxt where
    n: "c_text (drop (tp + top_name) img) = Some n" and
    nxt: "rd32 img (tp + top_next_offset) = Some nxt" and
    rest: "fill_tops img (unat nxt) k (buf @ [n]) = Some buf'"
    by (auto split: bind_splits)
  from Suc.IH [OF rest] obtain names where
    names: "buf' = (buf @ [n]) @ names" "length names = k"
      "\<forall>i<k. \<exists>t. nth_top_from img (unat nxt) i = Some t \<and>
                 c_text (drop (t + top_name) img) = Some (names ! i)"
    by blast
  have "\<forall>i<Suc k. \<exists>t. nth_top_from img tp i = Some t \<and>
                 c_text (drop (t + top_name) img) = Some ((n # names) ! i)"
  proof (intro allI impI)
    fix i assume "i < Suc k"
    show "\<exists>t. nth_top_from img tp i = Some t \<and>
                 c_text (drop (t + top_name) img) = Some ((n # names) ! i)"
    proof (cases i)
      case 0
      then show ?thesis using n by simp
    next
      case (Suc j)
      with \<open>i < Suc k\<close> have "j < k" by simp
      with names(3) Suc nxt show ?thesis by simp
    qed
  qed
  with names(1,2) show ?case
    by (intro exI [of _ "n # names"]) simp
qed

lemma fill_tops_total:
  "\<forall>i<k. \<exists>t. nth_top_from img tp i = Some t \<and>
             c_text (drop (t + top_name) img) \<noteq> None \<and>
             rd32 img (t + top_next_offset) \<noteq> None \<Longrightarrow>
   \<exists>buf'. fill_tops img tp k buf = Some buf'"
proof (induction k arbitrary: tp buf)
  case 0
  then show ?case by simp
next
  case (Suc k)
  from Suc.prems [rule_format, of 0] obtain n nxt where
    n: "c_text (drop (tp + top_name) img) = Some n" and
    nxt: "rd32 img (tp + top_next_offset) = Some nxt"
    by auto
  have "\<forall>i<k. \<exists>t. nth_top_from img (unat nxt) i = Some t \<and>
             c_text (drop (t + top_name) img) \<noteq> None \<and>
             rd32 img (t + top_next_offset) \<noteq> None"
  proof (intro allI impI)
    fix i assume "i < k"
    then have "Suc i < Suc k" by simp
    from Suc.prems [rule_format, OF this] nxt
    show "\<exists>t. nth_top_from img (unat nxt) i = Some t \<and>
             c_text (drop (t + top_name) img) \<noteq> None \<and>
             rd32 img (t + top_next_offset) \<noteq> None"
      by simp
  qed
  from Suc.IH [OF this] obtain buf' where "fill_tops img (unat nxt) k (buf @ [n]) = Some buf'"
    by blast
  with n nxt show ?case by simp
qed

lemma strcmp_root: "strcmp (c_str ''/'') (c_str ''/'') = Some 0"
  by (simp add: c_str_def NUL_def)

text \<open>
  Claim C7, as stated: the root listing has \<open>block_count + 2\<close> entries, \<open>.\<close>, \<open>..\<close> and the
  block names in on-disk order, and no entry is duplicated when block names are unique.
  A descriptor whose only block is named \<open>.\<close> has unique block names and lists \<open>.\<close>
  twice.
\<close>

theorem root_listing_repeats_dot:
  "rd32 dot_image hdr_top_count = Some 1
   \<and> block_name dot_image 0 = Some ''.''
   \<and> map_option (\<lambda>(rc, buf, w). (rc, buf)) (soc_readdir (machine dot_image) ''/'' []) =
       Some (0, [''.'', ''..'', ''.''])
   \<and> \<not> distinct [''.'', ''..'', ''.'']"
  by code_simp

text \<open>
  Claim C7, amended: for every descriptor whose block records can be read, the root
  listing succeeds and adds exactly \<open>block_count + 2\<close> entries: \<open>.\<close>, \<open>..\<close>, then the name
  of every block in on-disk order; no entry is duplicated when the block names are unique
  and none of them is \<open>.\<close> or \<open>..\<close>.
\<close>

theorem root_listing:
  assumes "blocks_readable (header (private_data w))"
  shows "\<exists>n names.
           rd32 (header (private_data w)) hdr_top_count = Some n
           \<and> soc_readdir w ''/'' buf = Some (0, buf @ ''.'' # ''..'' # names, w)
           \<and> length (''.'' # ''..'' # names) = unat n + 2
           \<and> (\<forall>i < unat n. block_name (header (private_data w)) i = Some (names ! i))
           \<and> (distinct names \<and> ''.'' \<notin> set names \<and> ''..'' \<notin> set names
                \<longrightarrow> distinct (''.'' # ''..'' # names))"
proof -
  let ?img = "header (private_data w)"
  from assms obtain n where
    n: "rd32 ?img hdr_top_count = Some n" and
    all: "\<forall>i \<in> set [0..<unat n].
             case nth_top_from ?img hdr_tops i of
               None \<Rightarrow> False
             | Some t \<Rightarrow> c_text (drop (t + top_name) ?img) \<noteq> None \<and>
                         rd32 ?img (t + top_next_offset) \<noteq> None"
    unfolding blocks_readable_def by (cases "rd32 ?img hdr_top_count") simp_all
  have rd: "\<forall>i<unat n. \<exists>t. nth_top_from ?img hdr_tops i = Some t \<and>
             c_text (drop (t + top_name) ?img) \<noteq> None \<and>
             rd32 ?img (t + top_next_offset) \<noteq> None"
  proof (intro allI impI)
    fix i assume "i < unat n"
    then have "i \<in> set [0..<unat n]" by simp
    from all [rule_format, OF this]
    show "\<exists>t. nth_top_from ?img hdr_tops i = Some t \<and>
             c_text (drop (t + top_name) ?img) \<noteq> None \<and>
             rd32 ?img (t + top_next_offset) \<noteq> None"
      by (cases "nth_top_from ?img hdr_tops i") simp_all
  qed
  from fill_tops_total [OF rd] obtain buf' where
    f: "fill_tops ?img hdr_tops (unat n) (buf @ [''.'', ''..'']) = Some buf'"
    by blast
  from fill_tops_Some [OF f] obtain names where
    names: "buf' = (buf @ [''.'', ''..'']) @ names" "length names = unat n"
      "\<forall>i<unat n. \<exists>t. nth_top_from ?img hdr_tops i = Some t \<and>
                 c_text (drop (t + top_name) ?img) = Some (names ! i)"
    by blast
  have "soc_readdir w ''/'' buf = Some (0, buf @ ''.'' # ''..'' # names, w)"
    using n f names(1) by (simp add: soc_readdir_def strcmp_root)
  moreover have "\<forall>i < unat n. block_name ?img i = Some (names ! i)"
    using names(3) by (auto simp: block_name_def)
  ultimately show ?thesis
    using n names(2) by auto
qed

theorem root_listing_witness:
  "soc_readdir (machine twin_image) ''/'' [] =
     Some (0, [''.'', ''..'', ''uart0'', ''uart1''], machine twin_image)
   \<and> distinct [''.'', ''..'', ''uart0'', ''uart1'']"
proof -
  have r: "blocks_readable (header (private_data (machine twin_image)))"
    by code_simp
  have c: "rd32 (header (private_data (machine twin_image))) hdr_top_count = Some 2"
    by code_simp
  have b0: "block_name (header (private_data (machine twin_image))) 0 = Some ''uart0''"
    by code_simp
  have b1: "block_name (header (private_data (machine twin_image))) 1 = Some ''uart1''"
    by code_simp
  from root_listing [OF r, of "[]"] c obtain names where
    l: "soc_readdir (machine twin_image) ''/'' [] =
          Some (0, ''.'' # ''..'' # names, machine twin_image)" and
    len: "length names = 2" and
    nth: "\<forall>i<2. block_name (header (private_data (machine twin_image))) i = Some (names ! i)"
    by auto
  from nth b0 b1 have "names ! 0 = ''uart0''" "names ! 1 = ''uart1''"
    by auto
  with len have "names = [''uart0'', ''uart1'']"
    by (cases names; cases "tl names") auto
  with l show ?thesis by simp
qed

subsection \<open>The text of a read\<close>

lemma hex_digit_lower: "d < 16 \<Longrightarrow> hex_digit d \<in> set ''0123456789abcdef''"
  unfolding hex_digit_def by (rule nth_mem) simp

lemma digit_val_hex_digit:
  assumes "d < 16"
  shows "digit_val (hex_digit d) = int d"
proof -
  from assms have "d \<in> {0, 1, 2, 3, 4, 5, 6, 7, 8, 9, 10, 11, 12, 13, 14, 15}"
    by simp arith
  then show ?thesis
    by (elim insertE emptyE) (simp_all add: hex_digit_def digit_val_def)
qed

lemma digits_val_snoc: "digits_val b (ds @ [c]) = digits_val b ds * b + digit_val c"
  by (simp add: digits_val_def)

lemma hex_int_lower: "0 \<le> n \<Longrightarrow> set (hex_int n) \<subseteq> set ''0123456789abcdef''"
proof (induction n rule: hex_int.induct)
  case (1 n)
  show ?case
  proof (cases "n < 16")
    case True
    with 1(2) have "nat n < 16" by simp
    from hex_digit_lower [OF this] True show ?thesis
      by (subst hex_int.simps) simp
  next
    case False
    then have "0 \<le> n div 16" by simp
    with 1(1) False have ih: "set (hex_int (n div 16)) \<subseteq> set ''0123456789abcdef''"
      by simp
    have "nat (n mod 16) < 16" by simp
    from hex_digit_lower [OF this] ih False show ?thesis
      by (subst hex_int.simps) simp
  qed
qed

lemma hex_int_value: "0 \<le> n \<Longrightarrow> digits_val 16 (hex_int n) = n"
proof (induction n rule: hex_int.induct)
  case (1 n)
  show ?case
  proof (cases "n < 16")
    case True
    with 1(2) have "nat n < 16" by simp
    from digit_val_hex_digit [OF this] True 1(2) show ?thesis
      by (subst hex_int.simps) (simp add: digits_val_def)
  next
    case False
    then have "0 \<le> n div 16" by simp
    with 1(1) False have ih: "digits_val 16 (hex_int (n div 16)) = n div 16"
      by simp
    have "nat (n mod 16) < 16" by simp
    from digit_val_hex_digit [OF this] ih False show ?thesis
      by (subst hex_int.simps) (simp add: digits_val_snoc)
  qed
qed

lemma soc_read_success:
  assumes h: "soc_read w path sz offset = Some (rc, out, w')" and rc: "0 \<le> rc"
  shows "\<exists>r addr m w1 width n val.
          find_reg (private_data w) path = Some (Ptr r)
          \<and> rd64 (header (private_data w)) (r + reg_addr) = Some addr
          \<and> map_mem w addr 4 = (Some m, w1)
          \<and> rd32 (header (private_data w)) (r + reg_width) = Some width
          \<and> (width, n) \<in> {(8, 1), (16, 2), (32, 4), (64, 8)}
          \<and> vload w1 (virt_addr m) n = Some val
          \<and> out = ''0x'' @ fmt_llx addr @ '' -> 0x'' @ fmt_llx val @ ''\<newline>''
          \<and> rc = int (length out)
          \<and> w' = unmap_mem w1 m"
proof -
  from h rc obtain r where r: "find_reg (private_data w) path = Some (Ptr r)"
    by (auto simp: soc_read_def ENOENT_def split: bind_splits ptr.splits)
  from h r obtain addr where addr: "rd64 (header (private_data w)) (r + reg_addr) = Some addr"
    by (auto simp: soc_read_def split: bind_splits)
  obtain mo w1 where mm: "map_mem w addr 4 = (mo, w1)"
    by (cases "map_mem w addr 4")
  from h r addr mm rc obtain m where m: "mo = Some m"
    by (cases mo) (auto simp: soc_read_def EFAULT_def)
  from h r addr mm m obtain width where
    width: "rd32 (header (private_data w)) (r + reg_width) = Some width"
    by (auto simp: soc_read_def split: bind_splits)
  from h r addr mm m width rc
  have "\<exists>n val. (width, n) \<in> {(8, 1), (16, 2), (32, 4), (64, 8)}
          \<and> vload w1 (virt_addr m) n = Some val
          \<and> (rc, out, w') = read_tail w1 m addr val"
    by (auto simp: soc_read_def EFAULT_def split: if_splits)
  then obtain n val where
    "(width, n) \<in> {(8, 1), (16, 2), (32, 4), (64, 8)}"
    "vload w1 (virt_addr m) n = Some val"
    "(rc, out, w') = read_tail w1 m addr val"
    by blast
  with r addr mm m width show ?thesis
    by (auto simp: read_tail_def Let_def)
qed

text \<open>
  Claim C8: a successful read returns the text \<^verbatim>\<open>0x<address> -> 0x<value>\<close> and a newline,
  both numbers in lowercase hexadecimal, and the text is the same for every offset the
  caller supplies. The result of \<^verbatim>\<open>soc_read\<close> does not depend on \<open>sz\<close> or \<open>offset\<close>; a
  non-negative return value is the length of that text, built from the address field of
  the register found and the value loaded at the mapped address with the register's
  width; and \<^verbatim>\<open>%llx\<close> yields lowercase hexadecimal digits whose value is the number.
\<close>

theorem soc_read_text_ignores_offset:
  "soc_read w path sz' offset' = soc_read w path sz offset
   \<and> (soc_read w path sz offset = Some (rc, out, w') \<and> 0 \<le> rc \<longrightarrow>
       (\<exists>r addr m w1 width n val.
          find_reg (private_data w) path = Some (Ptr r)
          \<and> rd64 (header (private_data w)) (r + reg_addr) = Some addr
          \<and> map_mem w addr 4 = (Some m, w1)
          \<and> rd32 (header (private_data w)) (r + reg_width) = Some width
          \<and> (width, n) \<in> {(8, 1), (16, 2), (32, 4), (64, 8)}
          \<and> vload w1 (virt_addr m) n = Some val
          \<and> out = ''0x'' @ fmt_llx addr @ '' -> 0x'' @ fmt_llx val @ ''\<newline>''
          \<and> rc = int (length out)
          \<and> w' = unmap_mem w1 m))
   \<and> set (fmt_llx v) \<subseteq> set ''0123456789abcdef''
   \<and> digits_val 16 (fmt_llx v) = uint v"
proof (intro conjI impI)
  show "soc_read w path sz' offset' = soc_read w path sz offset"
    by (simp add: soc_read_def)
next
  assume "soc_read w path sz offset = Some (rc, out, w') \<and> 0 \<le> rc"
  then show "\<exists>r addr m w1 width n val.
          find_reg (private_data w) path = Some (Ptr r)
          \<and> rd64 (header (private_data w)) (r + reg_addr) = Some addr
          \<and> map_mem w addr 4 = (Some m, w1)
          \<and> rd32 (header (private_data w)) (r + reg_width) = Some width
          \<and> (width, n) \<in> {(8, 1), (16, 2), (32, 4), (64, 8)}
          \<and> vload w1 (virt_addr m) n = Some val
          \<and> out = ''0x'' @ fmt_llx addr @ '' -> 0x'' @ fmt_llx val @ ''\<newline>''
          \<and> rc = int (length out)
          \<and> w' = unmap_mem w1 m"
    using soc_read_success by blast
next
  show "set (fmt_llx v) \<subseteq> set ''0123456789abcdef''"
    unfolding fmt_llx_def by (rule hex_int_lower) simp
next
  show "digits_val 16 (fmt_llx v) = uint v"
    unfolding fmt_llx_def by (rule hex_int_value) simp
qed

theorem soc_read_text_witness:
  "map_option (\<lambda>(rc, text, w'). (rc, text))
     (soc_read (machine demo_image) ''/uart0/CTRL'' 4096 0) =
     Some (18, ''0x10000000 -> 0x0\<newline>'')
   \<and> (\<exists>val. ''0x10000000 -> 0x0\<newline>'' =
         ''0x'' @ fmt_llx 0x10000000 @ '' -> 0x'' @ fmt_llx val @ ''\<newline>'')
   \<and> soc_read (machine demo_image) ''/uart0/CTRL'' 1 77 =
       soc_read (machine demo_image) ''/uart0/CTRL'' 4096 0"
proof -
  have a: "map_option (\<lambda>(rc, text, w'). (rc, text))
     (soc_read (machine demo_image) ''/uart0/CTRL'' 4096 0) =
     Some (18, ''0x10000000 -> 0x0\<newline>'')"
    by code_simp
  then obtain w' where
    b: "soc_read (machine demo_image) ''/uart0/CTRL'' 4096 0 =
          Some (18, ''0x10000000 -> 0x0\<newline>'', w')"
    by (cases "soc_read (machine demo_image) ''/uart0/CTRL'' 4096 0") auto
  have c: "find_reg (private_data (machine demo_image)) ''/uart0/CTRL'' = Some (Ptr 84)"
    by code_simp
  have d: "rd64 (header (private_data (machine demo_image))) (84 + reg_addr) = Some 0x10000000"
    by code_simp
  note inst = soc_read_text_ignores_offset
    [where w = "machine demo_image" and path = "''/uart0/CTRL''" and sz = 4096 and offset = 0
       and rc = 18 and out = "''0x10000000 -> 0x0\<newline>''" and w' = w'
       and sz' = 1 and offset' = 77]
  from inst b c d
  have "\<exists>val. ''0x10000000 -> 0x0\<newline>'' =
         ''0x'' @ fmt_llx 0x10000000 @ '' -> 0x'' @ fmt_llx val @ ''\<newline>''"
    by fastforce
  with a inst show ?thesis
    by blast
qed

end
